theory Spec2Isabelle
  imports Complex_Main "HOL-Library.AList" "HOL-Library.Sublist"
begin

section \<open>JavaScript values\<close>

text \<open>
  The store of \<^verbatim>\<open>src/index.js\<close> keeps a nested tree of JavaScript values. Values are
  modelled as finite trees. Every value of a reference type carries an identity, which is all
  that strict equality \<^verbatim>\<open>===\<close> looks at; plain objects carry their own enumerable
  properties in enumeration order, arrays their elements. Numbers are idealised as rationals
  with a separate \<open>NaN\<close>. Inherited (prototype) properties are not modelled: reading a
  property that is not an own property yields \<open>Undefined\<close>.
\<close>

datatype ref = Given nat | Made nat nat

datatype jsval =
    Undefined
  | Null
  | Bool bool
  | Num rat
  | NaN
  | Str string
  | Obj ref "(string \<times> jsval) list"
  | Arr ref "jsval list"
  | Fun ref
  | Host ref

datatype exn = TypeError | Thrown jsval

text \<open>Truthiness, as tested by \<^verbatim>\<open>item ? ... : ...\<close>, \<^verbatim>\<open>!x\<close> and \<^verbatim>\<open>a || b\<close>.\<close>

fun truthy :: "jsval \<Rightarrow> bool" where
  "truthy Undefined = False"
| "truthy Null = False"
| "truthy (Bool b) = b"
| "truthy (Num r) = (r \<noteq> 0)"
| "truthy NaN = False"
| "truthy (Str s) = (s \<noteq> [])"
| "truthy (Obj i fs) = True"
| "truthy (Arr i xs) = True"
| "truthy (Fun i) = True"
| "truthy (Host i) = True"

text \<open>Strict equality \<^verbatim>\<open>===\<close>: by value on primitives (\<open>NaN\<close> equals nothing), by
  identity on objects, arrays and functions.\<close>

fun strict_eq :: "jsval \<Rightarrow> jsval \<Rightarrow> bool" where
  "strict_eq Undefined Undefined = True"
| "strict_eq Null Null = True"
| "strict_eq (Bool a) (Bool b) = (a = b)"
| "strict_eq (Num a) (Num b) = (a = b)"
| "strict_eq (Str a) (Str b) = (a = b)"
| "strict_eq (Obj i fs) (Obj j gs) = (i = j)"
| "strict_eq (Arr i xs) (Arr j ys) = (i = j)"
| "strict_eq (Fun i) (Fun j) = (i = j)"
| "strict_eq (Host i) (Host j) = (i = j)"
| "strict_eq a b = False"

text \<open>\<^verbatim>\<open>isObject\<close> of \<^verbatim>\<open>deep-merge.js\<close>: truthy, \<^verbatim>\<open>typeof item === 'object'\<close>, not an
  array, not null, not an \<^verbatim>\<open>EventTarget\<close> (the \<open>Host\<close> values).\<close>

fun isObject :: "jsval \<Rightarrow> bool" where
  "isObject (Obj i fs) = True"
| "isObject v = False"

text \<open>Modelled from the spec: \<^verbatim>\<open>isPlainObject\<close>, which \<^verbatim>\<open>index.js\<close> imports from
  \<^verbatim>\<open>deep-merge.js\<close> but which the file under \<^verbatim>\<open>src/\<close> does not export. The spec (section 6):
  true for a non-null, non-array, non-special-object value that is a plain mapping.\<close>

definition isPlainObject :: "jsval \<Rightarrow> bool" where
  "isPlainObject v = isObject v"

subsection \<open>Property access\<close>

text \<open>An array index in canonical decimal form (\<^verbatim>\<open>"0"\<close>, \<^verbatim>\<open>"17"\<close>, not \<^verbatim>\<open>"017"\<close>).\<close>

definition is_digit :: "char \<Rightarrow> bool" where
  "is_digit c = (48 \<le> (of_char c :: nat) \<and> (of_char c :: nat) \<le> 57)"

definition digit_val :: "char \<Rightarrow> nat" where
  "digit_val c = of_char c - 48"

definition array_index :: "string \<Rightarrow> nat option" where
  "array_index k =
     (if k \<noteq> [] \<and> list_all is_digit k \<and> (hd k \<noteq> CHR ''0'' \<or> k = ''0'')
      then Some (foldl (\<lambda>a c. 10 * a + digit_val c) 0 k) else None)"

text \<open>\<^verbatim>\<open>item[index]\<close> for a string \<open>index\<close>.\<close>

fun get_prop :: "jsval \<Rightarrow> string \<Rightarrow> jsval" where
  "get_prop (Obj i fs) k = (case map_of fs k of Some v \<Rightarrow> v | None \<Rightarrow> Undefined)"
| "get_prop (Arr i xs) k =
     (if k = ''length'' then Num (of_nat (length xs))
      else case array_index k of
             Some n \<Rightarrow> (if n < length xs then xs ! n else Undefined)
           | None \<Rightarrow> Undefined)"
| "get_prop (Str s) k =
     (if k = ''length'' then Num (of_nat (length s))
      else case array_index k of
             Some n \<Rightarrow> (if n < length s then Str [s ! n] else Undefined)
           | None \<Rightarrow> Undefined)"
| "get_prop v k = Undefined"

section \<open>Path codec\<close>

text \<open>\<^verbatim>\<open>name.split('.')\<close>: never empty; the empty string splits into one empty segment.\<close>

fun split_dot :: "string \<Rightarrow> string list" where
  "split_dot [] = [[]]"
| "split_dot (c # cs) =
     (if c = CHR ''.'' then [] # split_dot cs
      else (case split_dot cs of s # ss \<Rightarrow> (c # s) # ss | [] \<Rightarrow> [[c]]))"

text \<open>\<^verbatim>\<open>parts.join('.')\<close>.\<close>

fun join_dot :: "string list \<Rightarrow> string" where
  "join_dot [] = []"
| "join_dot [s] = s"
| "join_dot (s # t # ss) = s @ CHR ''.'' # join_dot (t # ss)"

text \<open>\<^verbatim>\<open>_get(name, data)\<close>:
  \<^verbatim>\<open>name ? name.split('.').reduce((item, index) => item ? item[index] : undefined, data) : data\<close>.\<close>

definition step_get :: "jsval \<Rightarrow> string \<Rightarrow> jsval" where
  "step_get item index = (if truthy item then get_prop item index else Undefined)"

definition get_in :: "string \<Rightarrow> jsval \<Rightarrow> jsval" where
  "get_in name data = (if name \<noteq> [] then foldl step_get data (split_dot name) else data)"

text \<open>\<^verbatim>\<open>name.split('.').reduceRight((previous, current) => ({ [current]: previous }), value)\<close>.
  Each level is a newly created object; \<open>w\<close> numbers the allocation and the depth tells the
  levels apart.\<close>

fun encode_segs :: "nat \<Rightarrow> nat \<Rightarrow> string list \<Rightarrow> jsval \<Rightarrow> jsval" where
  "encode_segs w d [] v = v"
| "encode_segs w d (s # ss) v = Obj (Made w d) [(s, encode_segs w (Suc d) ss v)]"

definition encodePatch :: "nat \<Rightarrow> string \<Rightarrow> jsval \<Rightarrow> jsval" where
  "encodePatch w name v = encode_segs w 0 (split_dot name) v"

section \<open>Segment matching\<close>

text \<open>\<^verbatim>\<open>master.indexOf(v, i)\<close> for \<open>0 \<le> i\<close>; \<open>-1\<close> when there is no occurrence at or
  after \<open>i\<close>.\<close>

fun index_from :: "'a list \<Rightarrow> 'a \<Rightarrow> nat \<Rightarrow> nat \<Rightarrow> int" where
  "index_from [] v i pos = -1"
| "index_from (x # xs) v i pos =
     (if i \<le> pos \<and> x = v then int pos else index_from xs v i (Suc pos))"

definition indexOf :: "'a list \<Rightarrow> 'a \<Rightarrow> nat \<Rightarrow> int" where
  "indexOf master v i = index_from master v i 0"

text \<open>\<^verbatim>\<open>_hasSubArray(master, sub)\<close>:
  \<^verbatim>\<open>sub.every((i => v => i = master.indexOf(v, i) + 1)(0))\<close>. The closure variable \<open>i\<close>
  starts at 0; \<^verbatim>\<open>every\<close> stops at the first falsy result, which is 0.\<close>

fun every_from :: "'a list \<Rightarrow> nat \<Rightarrow> 'a list \<Rightarrow> bool" where
  "every_from master i [] = True"
| "every_from master i (v # vs) =
     (let i' = indexOf master v i + 1
      in if i' = 0 then False else every_from master (nat i') vs)"

definition hasSubArray :: "'a list \<Rightarrow> 'a list \<Rightarrow> bool" where
  "hasSubArray master sub = every_from master 0 sub"

section \<open>Options registry\<close>

text \<open>An option record, as passed to \<^verbatim>\<open>setOptions\<close>. A field the record does not have
  reads as \<open>Undefined\<close>; \<open>o_sameReferenceCheck\<close> tells an absent field (\<open>None\<close>) from a
  present one, because the built-in default for it is not \<^verbatim>\<open>undefined\<close>. The fields
  \<^verbatim>\<open>triggerSubscriptionCallback\<close> and \<^verbatim>\<open>isFunction\<close> of \<^verbatim>\<open>_defaultOptions\<close> are never read
  from an effective record and are left out.\<close>

record optrec =
  o_defaultValue :: jsval
  o_type :: jsval
  o_function :: jsval
  o_allowedValues :: "jsval list option"
  o_sameReferenceCheck :: "jsval option"

definition defaultOptions :: optrec where
  "defaultOptions =
     \<lparr>o_defaultValue = Undefined, o_type = Undefined, o_function = Undefined,
      o_allowedValues = None, o_sameReferenceCheck = Some (Bool True)\<rparr>"

text \<open>\<^verbatim>\<open>{ ...this._defaultOptions, ...options }\<close>; spreading \<^verbatim>\<open>null\<close> adds nothing.\<close>

fun overlay :: "optrec \<Rightarrow> optrec option \<Rightarrow> optrec" where
  "overlay d None = d"
| "overlay d (Some r) =
     \<lparr>o_defaultValue = o_defaultValue r, o_type = o_type r, o_function = o_function r,
      o_allowedValues = o_allowedValues r,
      o_sameReferenceCheck =
        (case o_sameReferenceCheck r of None \<Rightarrow> o_sameReferenceCheck d | Some b \<Rightarrow> Some b)\<rparr>"

type_synonym registry = "(string \<times> optrec) list"

text \<open>The loop of \<^verbatim>\<open>_findOptionsByName\<close>, from \<open>index\<close> up to \<open>nameParts.length\<close>:
  \<^verbatim>\<open>options = optionsList[partialName] || options\<close>. A registered record is an object, hence
  truthy.\<close>

function findLoop :: "string list \<Rightarrow> registry \<Rightarrow> nat \<Rightarrow> optrec option \<Rightarrow> optrec option" where
  "findLoop nameParts optionsList index options =
     (if index \<le> length nameParts
      then findLoop nameParts optionsList (Suc index)
             (case map_of optionsList (join_dot (take index nameParts)) of
                Some r \<Rightarrow> Some r | None \<Rightarrow> options)
      else options)"
  by pat_completeness auto
termination
  by (relation "measure (\<lambda>(nameParts, optionsList, index, options). Suc (length nameParts) - index)") auto

declare findLoop.simps [simp del]

definition findOptionsByName :: "string \<Rightarrow> registry \<Rightarrow> optrec" where
  "findOptionsByName name optionsList =
     overlay defaultOptions (findLoop (split_dot name) optionsList 1 None)"

text \<open>The filter of \<^verbatim>\<open>_getOptions\<close>:
  \<^verbatim>\<open>!name || !optionName || this._hasSubArray(name.split('.'), optionName.split('.'))\<close>.\<close>

definition candidate :: "string \<Rightarrow> string \<Rightarrow> bool" where
  "candidate name optionName \<longleftrightarrow>
     name = [] \<or> optionName = [] \<or> hasSubArray (split_dot name) (split_dot optionName)"

definition candidates :: "string \<Rightarrow> registry \<Rightarrow> registry" where
  "candidates name opts = filter (\<lambda>(optionName, r). candidate name optionName) opts"

definition getOptions :: "registry \<Rightarrow> string \<Rightarrow> optrec" where
  "getOptions opts name = findOptionsByName name (candidates name opts)"

definition getDefaultValue :: "registry \<Rightarrow> string \<Rightarrow> jsval" where
  "getDefaultValue opts name = o_defaultValue (getOptions opts name)"

text \<open>The record registered at exactly the first \<open>k\<close> segments of \<open>q\<close>, if any.\<close>

definition registered_at :: "registry \<Rightarrow> string \<Rightarrow> nat \<Rightarrow> optrec option" where
  "registered_at opts q k = map_of opts (join_dot (take k (split_dot q)))"

definition registry_ab :: registry where
  "registry_ab =
     [(''a'', defaultOptions\<lparr>o_defaultValue := Num 2\<rparr>),
      (''a.b'', \<lparr>o_defaultValue = Num 1, o_type = Str ''integer'', o_function = Undefined,
                o_allowedValues = None, o_sameReferenceCheck = None\<rparr>)]"

section \<open>Value transformer\<close>

text \<open>
  The language built-ins and the user's functions that the store calls are not code of this
  repository. \<^verbatim>\<open>parseInt\<close> is written out below; the others are parameters:
  \<^item> \<open>e_ToString\<close>: \<^verbatim>\<open>ToString\<close> of a number or of an object (\<^verbatim>\<open>parseInt\<close> converts its
    argument to a string first);
  \<^item> \<open>e_Number\<close>, \<open>e_parseFloat\<close>: \<^verbatim>\<open>Number(v)\<close> and \<^verbatim>\<open>parseFloat(v)\<close>, \<open>None\<close> for \<^verbatim>\<open>NaN\<close>;
  \<^item> \<open>e_JSON_parse\<close>, \<open>e_camelcaseKeys\<close>: \<^verbatim>\<open>JSON.parse\<close> and the \<^verbatim>\<open>camelcase-keys-recursive\<close>
    package; both build new objects, so they take the number of the allocation;
  \<^item> \<open>e_call\<close>: calling a function value with a list of arguments;
  \<^item> \<open>e_callback\<close>: calling a subscriber's callback with value, name and options; only
    an exception it raises matters to the store.
  User functions are taken not to call back into the store.
\<close>

record setopts =
  s_defaultValue :: jsval
  s_isFunction :: jsval
  s_triggerSubscriptionCallback :: jsval
  s_rest :: "(string \<times> jsval) list"

record env =
  e_ToString :: "jsval \<Rightarrow> string"
  e_Number :: "jsval \<Rightarrow> rat option"
  e_parseFloat :: "jsval \<Rightarrow> rat option"
  e_JSON_parse :: "nat \<Rightarrow> string \<Rightarrow> exn + jsval"
  e_camelcaseKeys :: "nat \<Rightarrow> jsval \<Rightarrow> exn + jsval"
  e_call :: "jsval \<Rightarrow> jsval list \<Rightarrow> exn + jsval"
  e_callback :: "jsval \<Rightarrow> jsval \<Rightarrow> string \<Rightarrow> setopts option \<Rightarrow> exn option"

fun is_function :: "jsval \<Rightarrow> bool" where
  "is_function (Fun i) = True"
| "is_function v = False"

text \<open>\<^verbatim>\<open>f(args)\<close>: calling what is not a function raises a \<^verbatim>\<open>TypeError\<close>.\<close>

definition call_fn :: "env \<Rightarrow> jsval \<Rightarrow> jsval list \<Rightarrow> exn + jsval" where
  "call_fn E f args = (if is_function f then e_call E f args else Inl TypeError)"

text \<open>A number or \<^verbatim>\<open>NaN\<close> as a value; \<^verbatim>\<open>if (isNaN(value)) { value = 0; }\<close>.\<close>

fun num_or_zero :: "rat option \<Rightarrow> jsval" where
  "num_or_zero None = Num 0"
| "num_or_zero (Some r) = Num r"

subsection \<open>\<^verbatim>\<open>parseInt\<close> with one argument\<close>

text \<open>ECMAScript \<^verbatim>\<open>parseInt(string)\<close>: leading white space is skipped, then an optional sign,
  then an optional \<^verbatim>\<open>0x\<close> or \<^verbatim>\<open>0X\<close> (radix 16, otherwise 10), then the longest run of digits
  of the radix; no digit gives \<^verbatim>\<open>NaN\<close>. Strings are byte strings here, so only the ASCII
  white space is known.\<close>

definition is_space :: "char \<Rightarrow> bool" where
  "is_space c = ((of_char c :: nat) \<in> {9, 10, 11, 12, 13, 32})"

definition hex_val :: "char \<Rightarrow> nat option" where
  "hex_val c =
     (let n = (of_char c :: nat) in
      if 48 \<le> n \<and> n \<le> 57 then Some (n - 48)
      else if 97 \<le> n \<and> n \<le> 102 then Some (n - 87)
      else if 65 \<le> n \<and> n \<le> 70 then Some (n - 55)
      else None)"

definition radix_val :: "nat \<Rightarrow> char \<Rightarrow> nat option" where
  "radix_val radix c =
     (case hex_val c of Some d \<Rightarrow> (if d < radix then Some d else None) | None \<Rightarrow> None)"

definition parseInt_str :: "string \<Rightarrow> int option" where
  "parseInt_str s =
     (let s1 = dropWhile is_space s;
          neg = (s1 \<noteq> [] \<and> hd s1 = CHR ''-'');
          s2 = (if s1 \<noteq> [] \<and> (hd s1 = CHR ''-'' \<or> hd s1 = CHR ''+'') then tl s1 else s1);
          hex = (take 2 s2 = ''0x'' \<or> take 2 s2 = ''0X'');
          radix = (if hex then 16 else 10);
          s3 = (if hex then drop 2 s2 else s2);
          ds = takeWhile (\<lambda>c. radix_val radix c \<noteq> None) s3;
          n = foldl (\<lambda>a c. radix * a + the (radix_val radix c)) 0 ds
      in if ds = [] then None else Some (if neg then - int n else int n))"

text \<open>\<^verbatim>\<open>ToString\<close> on the primitives whose text is fixed; numbers and objects through the
  parameter.\<close>

fun js_ToString :: "env \<Rightarrow> jsval \<Rightarrow> string" where
  "js_ToString E (Str s) = s"
| "js_ToString E Undefined = ''undefined''"
| "js_ToString E Null = ''null''"
| "js_ToString E (Bool b) = (if b then ''true'' else ''false'')"
| "js_ToString E NaN = ''NaN''"
| "js_ToString E v = e_ToString E v"

definition js_parseInt :: "env \<Rightarrow> jsval \<Rightarrow> rat option" where
  "js_parseInt E v = map_option of_int (parseInt_str (js_ToString E v))"

subsection \<open>\<^verbatim>\<open>_transformValue\<close>\<close>

text \<open>\<^verbatim>\<open>value !== undefined && value !== null && value !== false && value !== 'false'\<close>.\<close>

definition toBoolean :: "jsval \<Rightarrow> bool" where
  "toBoolean value \<longleftrightarrow>
     \<not> strict_eq value Undefined \<and> \<not> strict_eq value Null \<and>
     \<not> strict_eq value (Bool False) \<and> \<not> strict_eq value (Str ''false'')"

text \<open>\<^verbatim>\<open>try { value = f(value); } catch(error) {}\<close>.\<close>

definition try_assign :: "exn + jsval \<Rightarrow> jsval \<Rightarrow> jsval" where
  "try_assign r value = (case r of Inl e \<Rightarrow> value | Inr v \<Rightarrow> v)"

text \<open>The \<^verbatim>\<open>switch (rule.type)\<close>. The cases compare with \<^verbatim>\<open>===\<close>, so only the six strings
  match; any other type leaves the value as it is. \<open>w\<close> numbers the allocation.\<close>

definition coerce :: "env \<Rightarrow> nat \<Rightarrow> jsval \<Rightarrow> jsval \<Rightarrow> optrec \<Rightarrow> exn + jsval" where
  "coerce E w value oldValue rule =
     (if strict_eq (o_type rule) (Str ''custom'')
        then call_fn E (o_function rule) [value, oldValue, o_defaultValue rule]
      else if strict_eq (o_type rule) (Str ''number'')
        then Inr (num_or_zero (e_Number E value))
      else if strict_eq (o_type rule) (Str ''integer'')
        then Inr (num_or_zero (js_parseInt E value))
      else if strict_eq (o_type rule) (Str ''float'')
        then Inr (num_or_zero (e_parseFloat E value))
      else if strict_eq (o_type rule) (Str ''boolean'')
        then Inr (Bool (toBoolean value))
      else if strict_eq (o_type rule) (Str ''json'')
        then (case value of
                Str s \<Rightarrow>
                  (let v1 = try_assign (e_JSON_parse E w s) value
                   in Inr (try_assign (e_camelcaseKeys E w v1) v1))
              | _ \<Rightarrow> Inr value)
      else Inr value)"

text \<open>The allow-list:
  \<^verbatim>\<open>rule.allowedValues && rule.allowedValues.filter(a => value === a).length === 0\<close>, then
  \<^verbatim>\<open>rule.defaultValue !== undefined ? rule.defaultValue : null\<close>.\<close>

definition allowFilter :: "optrec \<Rightarrow> jsval \<Rightarrow> jsval" where
  "allowFilter rule value =
     (case o_allowedValues rule of
        None \<Rightarrow> value
      | Some allowed \<Rightarrow>
          if length (filter (\<lambda>allowedValue. strict_eq value allowedValue) allowed) = 0
          then (if \<not> strict_eq (o_defaultValue rule) Undefined then o_defaultValue rule else Null)
          else value)"

text \<open>\<^verbatim>\<open>_transformValue(value, oldValue, rule)\<close>. The rule is always the record that
  \<^verbatim>\<open>_findOptionsByName\<close> builds, so the test \<^verbatim>\<open>!rule\<close> never holds.\<close>

definition transformValue :: "env \<Rightarrow> nat \<Rightarrow> jsval \<Rightarrow> jsval \<Rightarrow> optrec \<Rightarrow> exn + jsval" where
  "transformValue E w value oldValue rule =
     (case coerce E w value oldValue rule of
        Inl e \<Rightarrow> Inl e
      | Inr v \<Rightarrow> Inr (allowFilter rule v))"

text \<open>An environment for examples: no parsing of floats or JSON, functions that return their
  first argument, callbacks that do not raise.\<close>

definition env0 :: env where
  "env0 = \<lparr>e_ToString = (\<lambda>v. ''[object Object]''),
           e_Number = (\<lambda>v. None),
           e_parseFloat = (\<lambda>v. None),
           e_JSON_parse = (\<lambda>w s. Inl (Thrown (Str ''SyntaxError''))),
           e_camelcaseKeys = (\<lambda>w v. Inr v),
           e_call = (\<lambda>f args. Inr (case args of [] \<Rightarrow> Undefined | a # as \<Rightarrow> a)),
           e_callback = (\<lambda>f v n opts. None)\<rparr>"

definition rule_lorem :: optrec where
  "rule_lorem = defaultOptions\<lparr>o_allowedValues := Some [Str ''lorem'', Str ''ipsum'']\<rparr>"

section \<open>Deep merge\<close>

text \<open>\<^verbatim>\<open>Object.keys(o)\<close> and \<^verbatim>\<open>o[key]\<close> on the property list of a plain object.\<close>

definition obj_keys :: "(string \<times> jsval) list \<Rightarrow> string list" where
  "obj_keys fs = map fst fs"

definition own_prop :: "(string \<times> jsval) list \<Rightarrow> string \<Rightarrow> jsval" where
  "own_prop fs k = (case map_of fs k of Some v \<Rightarrow> v | None \<Rightarrow> Undefined)"

lemma size_own_prop:
  "isObject (own_prop sf key) \<Longrightarrow> size (own_prop sf key) < size_list (size_prod (\<lambda>x. 0) size) sf"
proof (induction sf)
  case Nil
  then show ?case by (simp add: own_prop_def)
next
  case (Cons e sf)
  obtain k v where e: "e = (k, v)" by (cases e)
  show ?case
  proof (cases "k = key")
    case True
    with e show ?thesis by (simp add: own_prop_def)
  next
    case False
    with e Cons.prems have "isObject (own_prop sf key)" by (simp add: own_prop_def)
    from Cons.IH [OF this] e False show ?thesis by (simp add: own_prop_def)
  qed
qed

text \<open>\<^verbatim>\<open>deepMerge(target, source)\<close> of \<^verbatim>\<open>deep-merge.js\<close>. The source mutates \<open>target\<close> in
  place and returns it; the model returns the merged target, which keeps the identity of
  \<open>target\<close>. \<open>mergeKeys tf sf keys\<close> is the \<^verbatim>\<open>Object.keys(source).forEach\<close> over the keys still
  to do, \<open>tf\<close> and \<open>sf\<close> being the properties of target and source: a key whose source value is
  an object first gets \<^verbatim>\<open>target[key] = source[key]\<close> when the target has nothing mergeable
  there, then the two are merged; any other key is assigned.\<close>

function deepMerge :: "jsval \<Rightarrow> jsval \<Rightarrow> jsval"
  and mergeKeys ::
    "(string \<times> jsval) list \<Rightarrow> (string \<times> jsval) list \<Rightarrow> string list \<Rightarrow> (string \<times> jsval) list"
where
  "deepMerge target source =
     (case source of
        Obj j sf \<Rightarrow> (case target of Obj i tf \<Rightarrow> Obj i (mergeKeys tf sf (obj_keys sf)) | _ \<Rightarrow> target)
      | _ \<Rightarrow> target)"
| "mergeKeys tf sf [] = tf"
| "mergeKeys tf sf (key # keys) =
     mergeKeys
       (if isObject (own_prop sf key)
        then (let tv = own_prop tf key;
                  tv' = (if \<not> truthy tv \<or> \<not> isObject tv then own_prop sf key else tv)
              in AList.update key (deepMerge tv' (own_prop sf key)) tf)
        else AList.update key (own_prop sf key) tf)
       sf keys"
  by pat_completeness auto
termination
  by (relation "measures
        [\<lambda>x. case x of Inl (t, s) \<Rightarrow> size s
                      | Inr (tf, sf, ks) \<Rightarrow> size_list (size_prod (\<lambda>x. 0) size) sf,
         \<lambda>x. case x of Inl (t, s) \<Rightarrow> 0 | Inr (tf, sf, ks) \<Rightarrow> Suc (length ks)]")
     (auto simp: size_own_prop)

declare deepMerge.simps [simp del]

section \<open>Flattening to dot notation\<close>

text \<open>\<^verbatim>\<open>_objectToDotNotation(data, prefix, result)\<close>: the entries of \<open>data\<close> in order; a plain
  object is descended into with the prefix extended, any other value is stored under the
  flattened key.\<close>

fun flattenEntries ::
  "(string \<times> jsval) list \<Rightarrow> string \<Rightarrow> (string \<times> jsval) list \<Rightarrow> (string \<times> jsval) list"
where
  "flattenEntries [] pre result = result"
| "flattenEntries ((key, value) # rest) pre result =
     flattenEntries rest pre
       (case value of
          Obj i fs \<Rightarrow>
            (if isPlainObject value
             then flattenEntries fs ((pre @ key) @ ''.'') result
             else AList.update (pre @ key) value result)
        | _ \<Rightarrow> AList.update (pre @ key) value result)"

definition objectToDotNotation :: "(string \<times> jsval) list \<Rightarrow> (string \<times> jsval) list" where
  "objectToDotNotation entries = flattenEntries entries [] []"

section \<open>The store\<close>

record subscription =
  sub_id :: nat
  sub_name :: string
  sub_callback :: jsval

text \<open>The fields of a \<^verbatim>\<open>State\<close> instance. \<^verbatim>\<open>_subscriptions\<close> is an array with holes
  (\<^verbatim>\<open>delete this._subscriptions[index]\<close>), a hole being \<open>None\<close>. Three fields are not in the
  source: \<open>st_symbols\<close> counts the \<^verbatim>\<open>Symbol()\<close>s made, \<open>st_allocs\<close> the allocations, and
  \<open>st_calls\<close> records every call of a subscriber's callback: the index of the subscription
  and the three arguments.\<close>

record state =
  st_subscriptions :: "subscription option list"
  st_data :: jsval
  st_options :: registry
  st_symbols :: nat
  st_allocs :: nat
  st_calls :: "(nat \<times> jsval \<times> string \<times> setopts option) list"

definition noOptions :: optrec where
  "noOptions =
     \<lparr>o_defaultValue = Undefined, o_type = Undefined, o_function = Undefined,
      o_allowedValues = None, o_sameReferenceCheck = None\<rparr>"

definition emptyState :: state where
  "emptyState =
     \<lparr>st_subscriptions = [], st_data = Obj (Made 0 0) [], st_options = [],
      st_symbols = 0, st_allocs = 1, st_calls = []\<rparr>"

text \<open>\<^verbatim>\<open>get(name)\<close>.\<close>

definition get :: "state \<Rightarrow> string \<Rightarrow> jsval" where
  "get st name = get_in name (st_data st)"

text \<open>\<^verbatim>\<open>setOptions(name, options)\<close>.\<close>

definition setOptions :: "state \<Rightarrow> string \<Rightarrow> optrec \<Rightarrow> state" where
  "setOptions st name options =
     (let st1 = st\<lparr>st_options := AList.update name options (st_options st)\<rparr>
      in if \<not> strict_eq (o_defaultValue options) Undefined \<and> strict_eq (get st1 name) Undefined
         then (let modifiedData = encodePatch (st_allocs st1) name (o_defaultValue options)
               in st1\<lparr>st_data := deepMerge (st_data st1) modifiedData,
                      st_allocs := Suc (st_allocs st1)\<rparr>)
         else st1)"

text \<open>\<^verbatim>\<open>_setDefaults(defaults)\<close> and the constructor.\<close>

definition setDefaults :: "state \<Rightarrow> (string \<times> jsval) list \<Rightarrow> state" where
  "setDefaults st defaults =
     foldl (\<lambda>s (key, v). setOptions s key (noOptions\<lparr>o_defaultValue := v\<rparr>))
       st (objectToDotNotation defaults)"

definition newState :: "(string \<times> jsval) list \<Rightarrow> state" where
  "newState defaults = setDefaults emptyState defaults"

section \<open>Subscriptions and dispatch\<close>

datatype subarg = One string | Many "string list"

text \<open>\<^verbatim>\<open>subscribe(name, callback)\<close>; the handle it returns is the id to unsubscribe with.\<close>

definition subscribe :: "state \<Rightarrow> subarg \<Rightarrow> jsval \<Rightarrow> nat \<times> state" where
  "subscribe st name callback =
     (let i = st_symbols st;
          new = (case name of
                   Many names \<Rightarrow>
                     map (\<lambda>v. Some \<lparr>sub_id = i, sub_name = v, sub_callback = callback\<rparr>) names
                 | One n \<Rightarrow> [Some \<lparr>sub_id = i, sub_name = n, sub_callback = callback\<rparr>])
      in (i, st\<lparr>st_subscriptions := st_subscriptions st @ new, st_symbols := Suc i\<rparr>))"

definition delete_where :: "(subscription \<Rightarrow> bool) \<Rightarrow> subscription option list \<Rightarrow> subscription option list" where
  "delete_where P subs =
     map (\<lambda>s. case s of None \<Rightarrow> None | Some sub \<Rightarrow> if P sub then None else Some sub) subs"

definition unsubscribeAll :: "state \<Rightarrow> string \<Rightarrow> state" where
  "unsubscribeAll st name =
     st\<lparr>st_subscriptions := delete_where (\<lambda>sub. sub_name sub = name) (st_subscriptions st)\<rparr>"

definition unsubscribe :: "state \<Rightarrow> nat \<Rightarrow> state" where
  "unsubscribe st i =
     st\<lparr>st_subscriptions := delete_where (\<lambda>sub. sub_id sub = i) (st_subscriptions st)\<rparr>"

text \<open>The keys of the flattened patch:
  \<^verbatim>\<open>typeof modifiedData === 'object' && modifiedData.constructor === Object ?
  Object.keys(this._objectToDotNotation(modifiedData)) : []\<close>. \<^verbatim>\<open>null\<close> has type
  \<^verbatim>\<open>'object'\<close> and no properties. An object with an own property \<^verbatim>\<open>constructor\<close> does not
  pass the test.\<close>

fun modifiedKeysOf :: "jsval \<Rightarrow> exn + string list" where
  "modifiedKeysOf Null = Inl TypeError"
| "modifiedKeysOf (Obj i fs) =
     (if map_of fs ''constructor'' = None then Inr (map fst (objectToDotNotation fs))
      else Inr [])"
| "modifiedKeysOf v = Inr []"

text \<open>The condition under which a subscription is called:
  \<^verbatim>\<open>!name || !subscription.name || this._hasSubArray(name.split('.'),
  subscription.name.split('.')) || modifiedKeys.indexOf(subscription.name) !== -1\<close>.
  \<open>name\<close> is \<open>None\<close> when the caller passed none.\<close>

fun fires :: "string option \<Rightarrow> string list \<Rightarrow> string \<Rightarrow> bool" where
  "fires None modifiedKeys subName = True"
| "fires (Some name) modifiedKeys subName \<longleftrightarrow>
     name = [] \<or> subName = [] \<or> hasSubArray (split_dot name) (split_dot subName) \<or>
     indexOf modifiedKeys subName 0 \<noteq> -1"

text \<open>The \<^verbatim>\<open>forEach\<close> over \<^verbatim>\<open>_subscriptions\<close>, from position \<open>idx\<close> on. Holes are skipped.
  An exception of a callback ends the loop and is the result.\<close>

fun triggerLoop ::
  "env \<Rightarrow> state \<Rightarrow> string option \<Rightarrow> string list \<Rightarrow> setopts option \<Rightarrow> nat \<Rightarrow>
   subscription option list \<Rightarrow> exn option \<times> state"
where
  "triggerLoop E st name keys options idx [] = (None, st)"
| "triggerLoop E st name keys options idx (None # rest) =
     triggerLoop E st name keys options (Suc idx) rest"
| "triggerLoop E st name keys options idx (Some sub # rest) =
     (if fires name keys (sub_name sub)
      then (if is_function (sub_callback sub)
            then (let v = get_in (sub_name sub) (st_data st);
                      st' = st\<lparr>st_calls := st_calls st @ [(idx, v, sub_name sub, options)]\<rparr>
                  in case e_callback E (sub_callback sub) v (sub_name sub) options of
                       Some e \<Rightarrow> (Some e, st')
                     | None \<Rightarrow> triggerLoop E st' name keys options (Suc idx) rest)
            else (Some TypeError, st))
      else triggerLoop E st name keys options (Suc idx) rest)"

text \<open>\<^verbatim>\<open>_triggerSubscriptionCallbacks(name, modifiedData, options)\<close>.\<close>

definition trigger ::
  "env \<Rightarrow> state \<Rightarrow> string option \<Rightarrow> jsval \<Rightarrow> setopts option \<Rightarrow> exn option \<times> state" where
  "trigger E st name modifiedData options =
     (case modifiedKeysOf modifiedData of
        Inl e \<Rightarrow> (Some e, st)
      | Inr keys \<Rightarrow> triggerLoop E st name keys options 0 (st_subscriptions st))"

text \<open>The public \<^verbatim>\<open>triggerSubscriptionCallbacks(name, options)\<close> passes \<^verbatim>\<open>false\<close> as patch.\<close>

definition triggerSubscriptionCallbacks ::
  "env \<Rightarrow> state \<Rightarrow> string option \<Rightarrow> setopts option \<Rightarrow> exn option \<times> state" where
  "triggerSubscriptionCallbacks E st name options = trigger E st name (Bool False) options"

section \<open>Writing\<close>

text \<open>What \<^verbatim>\<open>set\<close> returns: \<^verbatim>\<open>{ name, value }\<close>, or the array of the results of the
  single writes.\<close>

datatype setresult = Single string jsval | Multiple "setresult list"

definition noSetopts :: setopts where
  "noSetopts =
     \<lparr>s_defaultValue = Undefined, s_isFunction = Undefined,
      s_triggerSubscriptionCallback = Undefined, s_rest = []\<rparr>"

text \<open>\<^verbatim>\<open>stateOptions && stateOptions.sameReferenceCheck\<close>, as a condition.\<close>

definition sameReferenceCheck :: "optrec \<Rightarrow> bool" where
  "sameReferenceCheck stateOptions =
     (case o_sameReferenceCheck stateOptions of None \<Rightarrow> False | Some b \<Rightarrow> truthy b)"

text \<open>\<^verbatim>\<open>set(name, value, options)\<close> for a string \<open>name\<close>, lines 28 to 52 of \<^verbatim>\<open>index.js\<close>, in
  four steps. The result pairs what the call returns or raises with the state it leaves.\<close>

text \<open>Lines 28 to 30: an inline \<^verbatim>\<open>defaultValue\<close> registers \<^verbatim>\<open>{ defaultValue }\<close> first.\<close>

definition prepare :: "state \<Rightarrow> string \<Rightarrow> setopts \<Rightarrow> state" where
  "prepare st name options =
     (if \<not> strict_eq (s_defaultValue options) Undefined
      then setOptions st name (noOptions\<lparr>o_defaultValue := s_defaultValue options\<rparr>)
      else st)"

text \<open>Lines 33 to 37: a function written with \<^verbatim>\<open>isFunction\<close> is called with the old value and
  the default value, and its result is written instead.\<close>

definition applyFunction :: "env \<Rightarrow> state \<Rightarrow> string \<Rightarrow> jsval \<Rightarrow> setopts \<Rightarrow> exn + jsval" where
  "applyFunction E st1 name value options =
     (if is_function value \<and> truthy (s_isFunction options)
      then call_fn E value [get st1 name, getDefaultValue (st_options st1) name]
      else Inr value)"

text \<open>Lines 41 to 52: the patch, the same-reference check, the merge and the dispatch.\<close>

definition commit ::
  "env \<Rightarrow> state \<Rightarrow> nat \<Rightarrow> string \<Rightarrow> jsval \<Rightarrow> setopts \<Rightarrow> optrec \<Rightarrow> (exn + setresult) \<times> state" where
  "commit E st2 w name value options stateOptions =
     (let modifiedData = encodePatch w name value
      in if sameReferenceCheck stateOptions \<and>
            strict_eq (get_in name (st_data st2)) (get_in name modifiedData)
         then (Inr (Single name value), st2)
         else (let st3 = st2\<lparr>st_data := deepMerge (st_data st2) modifiedData\<rparr>
               in if strict_eq (s_triggerSubscriptionCallback options) Undefined \<or>
                     truthy (s_triggerSubscriptionCallback options)
                  then (case trigger E st3 (Some name) modifiedData (Some options) of
                          (Some e, st4) \<Rightarrow> (Inl e, st4)
                        | (None, st4) \<Rightarrow> (Inr (Single name value), st4))
                  else (Inr (Single name value), st3)))"

text \<open>The whole call. The transformer works under allocation number \<open>st_allocs\<close>, the patch
  is allocation \<open>st_allocs + 1\<close>.\<close>

definition set_path ::
  "env \<Rightarrow> state \<Rightarrow> string \<Rightarrow> jsval \<Rightarrow> setopts \<Rightarrow> (exn + setresult) \<times> state" where
  "set_path E st name value options =
     (let st1 = prepare st name options;
          stateOptions = getOptions (st_options st1) name;
          oldValue = get_in name (st_data st1)
      in case applyFunction E st1 name value options of
           Inl e \<Rightarrow> (Inl e, st1)
         | Inr value1 \<Rightarrow>
             (let w = st_allocs st1; st2 = st1\<lparr>st_allocs := w + 2\<rparr>
              in case transformValue E w value1 oldValue stateOptions of
                   Inl e \<Rightarrow> (Inl e, st2)
                 | Inr value2 \<Rightarrow> commit E st2 (Suc w) name value2 options stateOptions))"

text \<open>The \<^verbatim>\<open>Object.keys(list).map(name => this.set(name, list[name], { ...options,
  triggerSubscriptionCallback: false }))\<close> of \<^verbatim>\<open>_setMultiple\<close>; an exception ends it.\<close>

fun setEach ::
  "env \<Rightarrow> state \<Rightarrow> (string \<times> jsval) list \<Rightarrow> setopts \<Rightarrow> (exn + setresult list) \<times> state"
where
  "setEach E st [] options = (Inr [], st)"
| "setEach E st ((name, value) # rest) options =
     (case set_path E st name value (options\<lparr>s_triggerSubscriptionCallback := Bool False\<rparr>) of
        (Inl e, st1) \<Rightarrow> (Inl e, st1)
      | (Inr r, st1) \<Rightarrow>
          (case setEach E st1 rest options of
             (Inl e, st2) \<Rightarrow> (Inl e, st2)
           | (Inr rs, st2) \<Rightarrow> (Inr (r # rs), st2)))"

text \<open>\<^verbatim>\<open>_setMultiple(list, options)\<close>: the writes, then
  \<^verbatim>\<open>this._triggerSubscriptionCallbacks()\<close> with no argument.\<close>

definition setMultiple ::
  "env \<Rightarrow> state \<Rightarrow> (string \<times> jsval) list \<Rightarrow> setopts \<Rightarrow> (exn + setresult) \<times> state" where
  "setMultiple E st list options =
     (case setEach E st list options of
        (Inl e, st1) \<Rightarrow> (Inl e, st1)
      | (Inr result, st1) \<Rightarrow>
          (case trigger E st1 None Undefined None of
             (Some e, st2) \<Rightarrow> (Inl e, st2)
           | (None, st2) \<Rightarrow> (Inr (Multiple result), st2)))"

text \<open>\<^verbatim>\<open>set\<close>: \<^verbatim>\<open>typeof name === 'object'\<close> selects the object form, whose second argument
  is the options.\<close>

datatype setarg = Path string jsval setopts | Batch "(string \<times> jsval) list" setopts

fun set_js :: "env \<Rightarrow> state \<Rightarrow> setarg \<Rightarrow> (exn + setresult) \<times> state" where
  "set_js E st (Path name value options) = set_path E st name value options"
| "set_js E st (Batch list options) = setMultiple E st list options"

section \<open>Notions used to state the properties\<close>



text \<open>The value a call \<^verbatim>\<open>set(name, value, options)\<close> is about to write: the function call
  of lines 33 to 37, then the transformer.\<close>

definition pipeline :: "env \<Rightarrow> state \<Rightarrow> string \<Rightarrow> jsval \<Rightarrow> setopts \<Rightarrow> exn + jsval" where
  "pipeline E st name value options =
     (let st1 = prepare st name options
      in case applyFunction E st1 name value options of
           Inl e \<Rightarrow> Inl e
         | Inr value1 \<Rightarrow>
             transformValue E (st_allocs st1) value1 (get st1 name)
               (getOptions (st_options st1) name))"

text \<open>The same-reference check of line 44 for a non-empty path, where the patch resolves
  to the value itself.\<close>

definition suppresses :: "state \<Rightarrow> string \<Rightarrow> jsval \<Rightarrow> bool" where
  "suppresses st1 name v \<longleftrightarrow>
     sameReferenceCheck (getOptions (st_options st1) name) \<and> strict_eq (get st1 name) v"

text \<open>Example stores: two subscribers, on \<^verbatim>\<open>"a"\<close> and on \<^verbatim>\<open>"b"\<close>; and the same after
  \<^verbatim>\<open>a = { c: 2 }\<close> was stored.\<close>

definition state_ab :: state where
  "state_ab =
     emptyState\<lparr>st_subscriptions :=
       [Some \<lparr>sub_id = 0, sub_name = ''a'', sub_callback = Fun (Given 100)\<rparr>,
        Some \<lparr>sub_id = 1, sub_name = ''b'', sub_callback = Fun (Given 101)\<rparr>],
       st_symbols := 2\<rparr>"


text \<open>The calls one dispatch pass makes when no callback raises: for every subscription
  (holes skipped) that meets the condition, its position, the value stored at its path, its
  path and the options handed through.\<close>

fun callsOf ::
  "string option \<Rightarrow> string list \<Rightarrow> setopts option \<Rightarrow> jsval \<Rightarrow> nat \<Rightarrow>
   subscription option list \<Rightarrow> (nat \<times> jsval \<times> string \<times> setopts option) list"
where
  "callsOf name keys options data idx [] = []"
| "callsOf name keys options data idx (None # rest) = callsOf name keys options data (Suc idx) rest"
| "callsOf name keys options data idx (Some sub # rest) =
     (if fires name keys (sub_name sub)
      then [(idx, get_in (sub_name sub) data, sub_name sub, options)] else [])
     @ callsOf name keys options data (Suc idx) rest"

text \<open>The calls a state has recorded beyond those of an earlier state.\<close>

definition new_calls :: "state \<Rightarrow> state \<Rightarrow> (nat \<times> jsval \<times> string \<times> setopts option) list" where
  "new_calls st st' = drop (length (st_calls st)) (st_calls st')"

text \<open>The flattened keys of the patch of a write, as the dispatch computes them.\<close>

definition patch_keys :: "string \<Rightarrow> jsval \<Rightarrow> string list" where
  "patch_keys name v =
     (case modifiedKeysOf (encodePatch 0 name v) of Inr keys \<Rightarrow> keys | Inl e \<Rightarrow> [])"

text \<open>\<^verbatim>\<open>options.triggerSubscriptionCallback === undefined ||
  options.triggerSubscriptionCallback\<close>.\<close>

definition dispatch_enabled :: "setopts \<Rightarrow> bool" where
  "dispatch_enabled options \<longleftrightarrow>
     strict_eq (s_triggerSubscriptionCallback options) Undefined \<or>
     truthy (s_triggerSubscriptionCallback options)"

text \<open>An environment whose user functions and callbacks never raise; subscriptions whose
  callbacks are functions; a registry whose \<^verbatim>\<open>custom\<close> records carry a function.\<close>

definition quiet :: "env \<Rightarrow> bool" where
  "quiet E \<longleftrightarrow>
     (\<forall>f args. \<exists>v. e_call E f args = Inr v) \<and> (\<forall>cb v n opts. e_callback E cb v n opts = None)"













section \<open>Properties of segment matching\<close>

lemma index_from_absent:
  "v \<notin> set (drop (i - pos) xs) \<Longrightarrow> index_from xs v i pos = -1"
proof (induction xs arbitrary: pos)
  case Nil
  then show ?case by simp
next
  case (Cons x xs)
  show ?case
  proof (cases "i \<le> pos")
    case True
    with Cons.prems have "x \<noteq> v" "v \<notin> set (drop (i - Suc pos) xs)" by auto
    with Cons.IH[of "Suc pos"] show ?thesis by simp
  next
    case False
    then have "drop (i - pos) (x # xs) = drop (i - Suc pos) xs"
      by (simp add: drop_Cons' )
    with Cons.prems Cons.IH[of "Suc pos"] False show ?thesis by simp
  qed
qed

lemma index_from_present:
  "v \<in> set (drop (i - pos) xs) \<Longrightarrow>
   index_from xs v i pos = int (max i pos + length (takeWhile (\<lambda>x. x \<noteq> v) (drop (i - pos) xs)))"
proof (induction xs arbitrary: pos)
  case Nil
  then show ?case by simp
next
  case (Cons x xs)
  show ?case
  proof (cases "i \<le> pos")
    case True
    show ?thesis
    proof (cases "x = v")
      case True
      with \<open>i \<le> pos\<close> show ?thesis by simp
    next
      case False
      with True Cons.prems have "v \<in> set (drop (i - Suc pos) xs)" by auto
      from Cons.IH[OF this] True False show ?thesis by (simp add: max_def)
    qed
  next
    case False
    then have d: "drop (i - pos) (x # xs) = drop (i - Suc pos) xs"
      by (simp add: drop_Cons')
    with Cons.prems have "v \<in> set (drop (i - Suc pos) xs)" by simp
    from Cons.IH[OF this] False d show ?thesis by (simp add: max_def)
  qed
qed

lemma subseq_Cons_first:
  "v \<in> set d \<Longrightarrow> subseq (v # vs) d \<longleftrightarrow> subseq vs (tl (dropWhile (\<lambda>x. x \<noteq> v) d))"
  by (induction d) auto

lemma subseq_Cons_absent: "v \<notin> set d \<Longrightarrow> \<not> subseq (v # vs) d"
  by (induction d) auto

lemma drop_first_occ:
  "v \<in> set d \<Longrightarrow> drop (Suc (length (takeWhile (\<lambda>x. x \<noteq> v) d))) d = tl (dropWhile (\<lambda>x. x \<noteq> v) d)"
  by (induction d) auto

lemma every_from_subseq: "every_from master i sub \<longleftrightarrow> subseq sub (drop i master)"
proof (induction sub arbitrary: i)
  case Nil
  then show ?case by simp
next
  case (Cons v vs)
  let ?d = "drop i master"
  show ?case
  proof (cases "v \<in> set ?d")
    case False
    then have "indexOf master v i = -1"
      by (simp add: indexOf_def index_from_absent)
    with False show ?thesis by (simp add: subseq_Cons_absent)
  next
    case True
    let ?n = "length (takeWhile (\<lambda>x. x \<noteq> v) ?d)"
    from True have ix: "indexOf master v i = int (i + ?n)"
      by (simp add: indexOf_def index_from_present)
    have "drop (Suc (i + ?n)) master = drop (Suc ?n) ?d"
      by (simp add: add.commute)
    also have "\<dots> = tl (dropWhile (\<lambda>x. x \<noteq> v) ?d)"
      using True by (rule drop_first_occ)
    finally have dr: "drop (Suc (i + ?n)) master = tl (dropWhile (\<lambda>x. x \<noteq> v) ?d)" .
    have "every_from master i (v # vs) = every_from master (Suc (i + ?n)) vs"
      using ix by (simp add: Let_def nat_add_distrib)
    also have "\<dots> = subseq vs (drop (Suc (i + ?n)) master)"
      by (rule Cons.IH)
    also have "\<dots> = subseq (v # vs) ?d"
      using True dr by (simp add: subseq_Cons_first)
    finally show ?thesis .
  qed
qed

lemma hasSubArray_subseq: "hasSubArray master sub \<longleftrightarrow> subseq sub master"
  by (simp add: hasSubArray_def every_from_subseq)


text \<open>
  Claim C3, as the code has it: the candidate filter of \<^verbatim>\<open>_getOptions\<close> keeps a registered
  path \<open>p\<close> for the queried path \<open>q\<close> exactly when \<open>q\<close> is empty, \<open>p\<close> is empty, or the
  segments of \<open>p\<close> are an ordered subsequence of the segments of \<open>q\<close>. The subsequence need
  not be contiguous and need not start at the first segment.
\<close>

theorem candidates_iff_subseq:
  "(p, r) \<in> set (candidates q opts) \<longleftrightarrow>
     (p, r) \<in> set opts \<and> (q = [] \<or> p = [] \<or> subseq (split_dot p) (split_dot q))"
  by (auto simp: candidates_def candidate_def hasSubArray_subseq)

theorem candidates_iff_subseq_witness:
  "(''a.c'', defaultOptions) \<in> set (candidates ''a.b.c'' [(''a.c'', defaultOptions)])"
  using candidates_iff_subseq [of "''a.c''" defaultOptions "''a.b.c''" "[(''a.c'', defaultOptions)]"]
  by simp

text \<open>The claim as stated fails: \<^verbatim>\<open>"b"\<close> is not a dotted prefix of \<^verbatim>\<open>"a.b"\<close>, and is selected.\<close>

theorem candidates_prefix_counterexample:
  "candidates ''a.b'' [(''b'', defaultOptions)] = [(''b'', defaultOptions)] \<and>
   ''b'' \<noteq> [] \<and> \<not> prefix (split_dot ''b'') (split_dot ''a.b'')"
  by (simp add: candidates_def candidate_def hasSubArray_def indexOf_def)


section \<open>Properties of the options registry\<close>

lemma split_dot_not_Nil: "split_dot s \<noteq> []"
  by (induction s) (auto split: list.splits)

lemma split_dot_no_dot: "seg \<in> set (split_dot s) \<Longrightarrow> CHR ''.'' \<notin> set seg"
  by (induction s arbitrary: seg) (auto split: list.splits if_splits)

lemma split_dot_append_seg:
  "CHR ''.'' \<notin> set s \<Longrightarrow> split_dot (s @ CHR ''.'' # rest) = s # split_dot rest"
  by (induction s) auto

lemma split_dot_single: "CHR ''.'' \<notin> set s \<Longrightarrow> split_dot s = [s]"
  by (induction s) auto

lemma split_join:
  "ss \<noteq> [] \<Longrightarrow> \<forall>seg\<in>set ss. CHR ''.'' \<notin> set seg \<Longrightarrow> split_dot (join_dot ss) = ss"
proof (induction ss rule: join_dot.induct)
  case 1
  then show ?case by simp
next
  case (2 s)
  then show ?case by (simp add: split_dot_single)
next
  case (3 s t ss)
  then show ?case by (simp add: split_dot_append_seg)
qed

lemma split_join_take:
  assumes "1 \<le> k"
  shows "split_dot (join_dot (take k (split_dot q))) = take k (split_dot q)"
proof (rule split_join)
  from assms show "take k (split_dot q) \<noteq> []"
    using split_dot_not_Nil[of q] by (cases k) auto
  show "\<forall>seg\<in>set (take k (split_dot q)). CHR ''.'' \<notin> set seg"
    using split_dot_no_dot by (meson in_set_takeD)
qed

lemma map_of_filter_key:
  "map_of (filter (\<lambda>(k, r). P k) L) x = (if P x then map_of L x else None)"
  by (induction L) auto

lemma findLoop_none:
  "(\<forall>k. i \<le> k \<and> k \<le> length parts \<longrightarrow> map_of L (join_dot (take k parts)) = None) \<Longrightarrow>
   findLoop parts L i acc = acc"
proof (induction parts L i acc rule: findLoop.induct)
  case (1 nameParts optionsList index options)
  show ?case
  proof (cases "index \<le> length nameParts")
    case True
    with 1 show ?thesis
      by (subst findLoop.simps) simp
  next
    case False
    then show ?thesis by (subst findLoop.simps) simp
  qed
qed

lemma findLoop_last:
  "i \<le> k \<Longrightarrow> k \<le> length parts \<Longrightarrow> map_of L (join_dot (take k parts)) = Some r \<Longrightarrow>
   (\<forall>j. k < j \<and> j \<le> length parts \<longrightarrow> map_of L (join_dot (take j parts)) = None) \<Longrightarrow>
   findLoop parts L i acc = Some r"
proof (induction parts L i acc rule: findLoop.induct)
  case (1 nameParts optionsList index options)
  from "1.prems" have le: "index \<le> length nameParts" by simp
  show ?case
  proof (cases "index = k")
    case True
    have "findLoop nameParts optionsList (Suc index) (Some r) = Some r"
      using "1.prems"(4) True by (intro findLoop_none) auto
    with True le "1.prems"(3) show ?thesis
      by (subst findLoop.simps) simp
  next
    case False
    with "1.prems" have "Suc index \<le> k" by simp
    from "1.IH"[OF le this "1.prems"(2,3,4)] le show ?thesis
      by (subst findLoop.simps) simp
  qed
qed

lemma candidate_prefix:
  "1 \<le> k \<Longrightarrow> candidate q (join_dot (take k (split_dot q)))"
  by (simp add: candidate_def hasSubArray_subseq split_join_take prefix_imp_subseq take_is_prefix)

lemma getOptions_unfold:
  "getOptions opts q =
     overlay defaultOptions
       (findLoop (split_dot q) (candidates q opts) 1 None)"
  by (simp add: getOptions_def findOptionsByName_def)

lemma candidates_lookup_prefix:
  "1 \<le> k \<Longrightarrow> map_of (candidates q opts) (join_dot (take k (split_dot q)))
     = map_of opts (join_dot (take k (split_dot q)))"
  by (simp add: candidates_def map_of_filter_key candidate_prefix)

text \<open>
  Claim C4: the effective option record for a path is the whole record registered at the
  longest prefix of the path (its first \<open>k\<close> segments, \<open>1 \<le> k\<close>) that is registered, laid over
  the built-in defaults; no field of a record registered at a shorter prefix is used. When no
  prefix is registered, the result is the built-in defaults. With records at \<^verbatim>\<open>"a"\<close> and
  \<^verbatim>\<open>"a.b"\<close>, \<^verbatim>\<open>getDefaultValue('a.b')\<close> is the default value of the \<^verbatim>\<open>"a.b"\<close> record.
\<close>

theorem getOptions_longest_prefix:
  "((\<forall>k. 1 \<le> k \<and> k \<le> length (split_dot q) \<longrightarrow> registered_at opts q k = None)
      \<longrightarrow> getOptions opts q = defaultOptions) \<and>
   (\<forall>k r. 1 \<le> k \<and> k \<le> length (split_dot q) \<and> registered_at opts q k = Some r \<and>
      (\<forall>j. k < j \<and> j \<le> length (split_dot q) \<longrightarrow> registered_at opts q j = None)
      \<longrightarrow> getOptions opts q = overlay defaultOptions (Some r)) \<and>
   (\<forall>r. map_of opts ''a.b'' = Some r \<longrightarrow> getDefaultValue opts ''a.b'' = o_defaultValue r)"
proof (intro conjI allI impI)
  assume "\<forall>k. 1 \<le> k \<and> k \<le> length (split_dot q) \<longrightarrow> registered_at opts q k = None"
  then have "findLoop (split_dot q) (candidates q opts) 1 None = None"
    by (intro findLoop_none) (simp add: candidates_lookup_prefix registered_at_def)
  then show "getOptions opts q = defaultOptions"
    by (simp add: getOptions_unfold)
next
  fix k r
  assume a: "1 \<le> k \<and> k \<le> length (split_dot q) \<and> registered_at opts q k = Some r \<and>
      (\<forall>j. k < j \<and> j \<le> length (split_dot q) \<longrightarrow> registered_at opts q j = None)"
  have "findLoop (split_dot q) (candidates q opts) 1 None = Some r"
  proof (rule findLoop_last[where k = k])
    from a show "1 \<le> k" "k \<le> length (split_dot q)" by simp_all
    from a show "map_of (candidates q opts) (join_dot (take k (split_dot q))) = Some r"
      by (simp add: candidates_lookup_prefix registered_at_def)
    from a show "\<forall>j. k < j \<and> j \<le> length (split_dot q) \<longrightarrow>
        map_of (candidates q opts) (join_dot (take j (split_dot q))) = None"
      by (simp add: candidates_lookup_prefix registered_at_def)
  qed
  then show "getOptions opts q = overlay defaultOptions (Some r)"
    by (simp add: getOptions_unfold)
next
  fix r
  assume a: "map_of opts ''a.b'' = Some r"
  have sp: "split_dot ''a.b'' = [''a'', ''b'']" by simp
  have "findLoop (split_dot ''a.b'') (candidates ''a.b'' opts) 1 None = Some r"
  proof (rule findLoop_last[where k = 2])
    show "(1::nat) \<le> 2" by simp
    show "2 \<le> length (split_dot ''a.b'')" by (simp add: sp)
    have "map_of (candidates ''a.b'' opts) (join_dot (take 2 (split_dot ''a.b''))) = map_of opts (join_dot (take 2 (split_dot ''a.b'')))"
      by (rule candidates_lookup_prefix) simp
    with a show "map_of (candidates ''a.b'' opts) (join_dot (take 2 (split_dot ''a.b''))) = Some r"
      by (simp add: sp)
    show "\<forall>j. 2 < j \<and> j \<le> length (split_dot ''a.b'') \<longrightarrow>
        map_of (candidates ''a.b'' opts) (join_dot (take j (split_dot ''a.b''))) = None"
      by (auto simp: sp)
  qed
  then show "getDefaultValue opts ''a.b'' = o_defaultValue r"
    by (simp add: getDefaultValue_def getOptions_unfold)
qed

theorem getOptions_longest_prefix_witness:
  "getOptions registry_ab ''a.b'' =
     \<lparr>o_defaultValue = Num 1, o_type = Str ''integer'', o_function = Undefined,
      o_allowedValues = None, o_sameReferenceCheck = Some (Bool True)\<rparr> \<and>
   getOptions registry_ab ''c.d'' = defaultOptions \<and>
   getDefaultValue registry_ab ''a.b'' = Num 1"
proof -
  have sp: "split_dot ''a.b'' = [''a'', ''b'']" "split_dot ''c.d'' = [''c'', ''d'']"
    by simp_all
  have none: "\<forall>k. 1 \<le> k \<and> k \<le> length (split_dot ''c.d'') \<longrightarrow>
      registered_at registry_ab ''c.d'' k = None"
  proof (intro allI impI)
    fix k :: nat
    assume "1 \<le> k \<and> k \<le> length (split_dot ''c.d'')"
    then have "k = 1 \<or> k = 2" by (auto simp: sp)
    then show "registered_at registry_ab ''c.d'' k = None"
      by (auto simp: registered_at_def registry_ab_def sp)
  qed
  have last: "1 \<le> (2::nat) \<and> 2 \<le> length (split_dot ''a.b'') \<and>
      registered_at registry_ab ''a.b'' 2 =
        Some \<lparr>o_defaultValue = Num 1, o_type = Str ''integer'', o_function = Undefined,
              o_allowedValues = None, o_sameReferenceCheck = None\<rparr> \<and>
      (\<forall>j. 2 < j \<and> j \<le> length (split_dot ''a.b'') \<longrightarrow>
         registered_at registry_ab ''a.b'' j = None)"
    by (auto simp: registered_at_def registry_ab_def sp)
  have ab: "map_of registry_ab ''a.b'' =
      Some \<lparr>o_defaultValue = Num 1, o_type = Str ''integer'', o_function = Undefined,
            o_allowedValues = None, o_sameReferenceCheck = None\<rparr>"
    by (simp add: registry_ab_def)
  from getOptions_longest_prefix [of "''c.d''" registry_ab] none
  have c1: "getOptions registry_ab ''c.d'' = defaultOptions" by blast
  from getOptions_longest_prefix [of "''a.b''" registry_ab] last
  have c2: "getOptions registry_ab ''a.b'' =
      overlay defaultOptions
        (Some \<lparr>o_defaultValue = Num 1, o_type = Str ''integer'', o_function = Undefined,
               o_allowedValues = None, o_sameReferenceCheck = None\<rparr>)" by blast
  from getOptions_longest_prefix [of "''a.b''" registry_ab] ab
  have c3: "getDefaultValue registry_ab ''a.b'' = Num 1" by simp
  from c1 c2 c3 show ?thesis by (simp add: defaultOptions_def)
qed


section \<open>Properties of the value transformer\<close>

lemma strict_eq_Undefined [simp]: "strict_eq v Undefined \<longleftrightarrow> v = Undefined"
  by (cases v) simp_all

lemma strict_eq_Null [simp]: "strict_eq v Null \<longleftrightarrow> v = Null"
  by (cases v) simp_all

lemma strict_eq_Bool [simp]: "strict_eq v (Bool b) \<longleftrightarrow> v = Bool b"
  by (cases v) auto

lemma strict_eq_Str [simp]: "strict_eq v (Str s) \<longleftrightarrow> v = Str s"
  by (cases v) auto

lemma strict_eq_Num [simp]: "strict_eq v (Num r) \<longleftrightarrow> v = Num r"
  by (cases v) auto

lemma strict_eq_NaN [simp]: "\<not> strict_eq v NaN" "\<not> strict_eq NaN v"
  by (cases v; simp)+

lemma strict_eq_sym: "strict_eq a b \<longleftrightarrow> strict_eq b a"
  by (cases a; cases b) auto

lemma allowFilter_cases:
  "allowFilter rule v =
     (case o_allowedValues rule of
        None \<Rightarrow> v
      | Some allowed \<Rightarrow>
          if (\<exists>a\<in>set allowed. strict_eq v a) then v
          else if o_defaultValue rule = Undefined then Null else o_defaultValue rule)"
  by (auto simp: allowFilter_def filter_empty_conv split: option.splits)

text \<open>
  Claim C6, as the code has it: after coercion, when the record has an \<^verbatim>\<open>allowedValues\<close> list
  (empty or not) and no element of it is strictly equal to the coerced value, the result is
  the record's \<^verbatim>\<open>defaultValue\<close> if that is defined and \<^verbatim>\<open>null\<close> otherwise; when the record
  has no \<^verbatim>\<open>allowedValues\<close>, or some element is strictly equal to the coerced value, the coerced
  value is the result. This holds whatever the type is.
\<close>

theorem transformValue_allow_list:
  "coerce E w value oldValue rule = Inr v \<Longrightarrow>
   transformValue E w value oldValue rule =
     Inr (case o_allowedValues rule of
            None \<Rightarrow> v
          | Some allowed \<Rightarrow>
              if (\<exists>a\<in>set allowed. strict_eq v a) then v
              else if o_defaultValue rule = Undefined then Null else o_defaultValue rule)"
  by (simp add: transformValue_def allowFilter_cases)

theorem transformValue_allow_list_witness:
  "transformValue env0 0 (Str ''dolor'') Undefined rule_lorem = Inr Null \<and>
   transformValue env0 0 (Str ''ipsum'') Undefined rule_lorem = Inr (Str ''ipsum'') \<and>
   transformValue env0 0 (Str ''dolor'') Undefined (rule_lorem\<lparr>o_defaultValue := Str ''ipsum''\<rparr>)
     = Inr (Str ''ipsum'')"
proof -
  have c: "coerce env0 0 (Str s) Undefined (rule_lorem\<lparr>o_defaultValue := d\<rparr>) = Inr (Str s)"
    for s d by (simp add: coerce_def rule_lorem_def defaultOptions_def)
  have c': "coerce env0 0 (Str s) Undefined rule_lorem = Inr (Str s)"
    for s by (simp add: coerce_def rule_lorem_def defaultOptions_def)
  from transformValue_allow_list [OF c' [of "''dolor''"]]
       transformValue_allow_list [OF c' [of "''ipsum''"]]
       transformValue_allow_list [OF c [of "''dolor''" "Str ''ipsum''"]]
  show ?thesis by (simp add: rule_lorem_def defaultOptions_def)
qed

text \<open>The claim as stated fails on an empty allow-list: an empty array is truthy, nothing is
  a member of it, and the value is replaced.\<close>

theorem allow_list_empty_counterexample:
  "coerce env0 0 (Str ''x'') Undefined (defaultOptions\<lparr>o_allowedValues := Some []\<rparr>)
     = Inr (Str ''x'') \<and>
   transformValue env0 0 (Str ''x'') Undefined (defaultOptions\<lparr>o_allowedValues := Some []\<rparr>)
     = Inr Null"
  by (simp add: transformValue_def allowFilter_def coerce_def defaultOptions_def)

lemma parseInt_examples:
  "parseInt_str ''1.2'' = Some 1" "parseInt_str ''test'' = None"
  by (simp_all add: parseInt_str_def is_space_def radix_val_def hex_val_def)

text \<open>
  Claim C7: under type \<^verbatim>\<open>'integer'\<close> the input \<^verbatim>\<open>"1.2"\<close> becomes 1 and a string without a
  leading integer, such as \<^verbatim>\<open>"test"\<close>, becomes 0; under type \<^verbatim>\<open>'boolean'\<close> the result is
  \<^verbatim>\<open>false\<close> exactly for \<^verbatim>\<open>undefined\<close>, \<^verbatim>\<open>null\<close>, \<^verbatim>\<open>false\<close> and the string \<^verbatim>\<open>"false"\<close>, and
  \<^verbatim>\<open>true\<close> for everything else, the string \<^verbatim>\<open>"0"\<close> included. Without an allow-list this is
  the value the transformer returns.
\<close>

theorem coercion_table:
  "(o_type rule = Str ''integer'' \<longrightarrow>
      coerce E w (Str ''1.2'') oldValue rule = Inr (Num 1) \<and>
      coerce E w (Str ''test'') oldValue rule = Inr (Num 0) \<and>
      (\<forall>s. parseInt_str s = None \<longrightarrow> coerce E w (Str s) oldValue rule = Inr (Num 0))) \<and>
   (o_type rule = Str ''boolean'' \<longrightarrow>
      coerce E w v oldValue rule =
        Inr (Bool (v \<noteq> Undefined \<and> v \<noteq> Null \<and> v \<noteq> Bool False \<and> v \<noteq> Str ''false'')) \<and>
      coerce E w (Str ''0'') oldValue rule = Inr (Bool True)) \<and>
   (o_allowedValues rule = None \<longrightarrow>
      transformValue E w v oldValue rule = coerce E w v oldValue rule)"
  by (auto simp: coerce_def js_parseInt_def parseInt_examples toBoolean_def
        transformValue_def allowFilter_def split: sum.splits)

theorem coercion_table_witness:
  "transformValue env0 0 (Str ''1.2'') Undefined (defaultOptions\<lparr>o_type := Str ''integer''\<rparr>)
     = Inr (Num 1) \<and>
   transformValue env0 0 (Str ''test'') Undefined (defaultOptions\<lparr>o_type := Str ''integer''\<rparr>)
     = Inr (Num 0) \<and>
   transformValue env0 0 (Str ''false'') Undefined (defaultOptions\<lparr>o_type := Str ''boolean''\<rparr>)
     = Inr (Bool False) \<and>
   transformValue env0 0 (Str ''0'') Undefined (defaultOptions\<lparr>o_type := Str ''boolean''\<rparr>)
     = Inr (Bool True)"
proof -
  let ?ri = "defaultOptions\<lparr>o_type := Str ''integer''\<rparr>"
  let ?rb = "defaultOptions\<lparr>o_type := Str ''boolean''\<rparr>"
  have ti: "o_type ?ri = Str ''integer''" "o_allowedValues ?ri = None"
    by (simp_all add: defaultOptions_def)
  have tb: "o_type ?rb = Str ''boolean''" "o_allowedValues ?rb = None"
    by (simp_all add: defaultOptions_def)
  from coercion_table [where rule = ?ri and E = env0 and w = 0 and oldValue = Undefined and v = "Str ''1.2''"]
       coercion_table [where rule = ?ri and E = env0 and w = 0 and oldValue = Undefined and v = "Str ''test''"] ti
  have a: "transformValue env0 0 (Str ''1.2'') Undefined ?ri = Inr (Num 1)"
          "transformValue env0 0 (Str ''test'') Undefined ?ri = Inr (Num 0)"
    by simp_all
  from coercion_table [where rule = ?rb and E = env0 and w = 0 and oldValue = Undefined and v = "Str ''false''"]
       coercion_table [where rule = ?rb and E = env0 and w = 0 and oldValue = Undefined and v = "Str ''0''"] tb
  have b: "transformValue env0 0 (Str ''false'') Undefined ?rb = Inr (Bool False)"
          "transformValue env0 0 (Str ''0'') Undefined ?rb = Inr (Bool True)"
    by simp_all
  from a b show ?thesis by simp
qed


section \<open>Properties of the deep merge\<close>



lemma own_prop_update:
  "own_prop (AList.update k v fs) k' = (if k' = k then v else own_prop fs k')"
  by (simp add: own_prop_def update_conv')

lemma get_prop_Obj: "get_prop (Obj i fs) k = own_prop fs k"
  by (simp add: own_prop_def)

lemma step_get_Obj [simp]: "step_get (Obj i fs) k = own_prop fs k"
  by (simp add: step_get_def own_prop_def)

lemma step_get_Undefined [simp]: "step_get Undefined k = Undefined"
  by (simp add: step_get_def)

lemma foldl_step_get_Undefined [simp]: "foldl step_get Undefined ss = Undefined"
  by (induction ss) simp_all


lemma deepMerge_not_source: "\<not> isObject source \<Longrightarrow> deepMerge target source = target"
  by (cases source) (simp_all add: deepMerge.simps)

lemma deepMerge_not_target: "\<not> isObject target \<Longrightarrow> deepMerge target source = target"
  by (cases source; cases target) (simp_all add: deepMerge.simps)

lemma isObject_deepMerge [simp]: "isObject (deepMerge target source) = isObject target"
  by (cases source; cases target) (simp_all add: deepMerge.simps)

lemma mergeKeys_other:
  "k \<notin> set keys \<Longrightarrow> own_prop (mergeKeys tf sf keys) k = own_prop tf k"
  by (induction keys arbitrary: tf) (auto simp: own_prop_update Let_def)





lemma get_encode: "foldl step_get (encode_segs w d ss v) ss = v"
  by (induction ss arbitrary: d) (simp_all add: own_prop_def)



section \<open>Reading after writing\<close>

lemma triggerLoop_frame:
  "triggerLoop E st name keys opts idx subs = (r, st') \<Longrightarrow>
   st_data st' = st_data st \<and> st_subscriptions st' = st_subscriptions st \<and>
   st_options st' = st_options st \<and> st_allocs st' = st_allocs st \<and>
   st_symbols st' = st_symbols st"
proof (induction E st name keys opts idx subs rule: triggerLoop.induct)
  case (1 E st name keys options idx)
  then show ?case by simp
next
  case (2 E st name keys options idx rest)
  then show ?case by simp
next
  case (3 E st name keys options idx sub rest)
  let ?v = "get_in (sub_name sub) (st_data st)"
  let ?st' = "st\<lparr>st_calls := st_calls st @ [(idx, ?v, sub_name sub, options)]\<rparr>"
  show ?case
  proof (cases "fires name keys (sub_name sub)")
    case False
    with "3.prems" have "triggerLoop E st name keys options (Suc idx) rest = (r, st')" by simp
    with "3.IH"(2) False show ?thesis by blast
  next
    case True
    show ?thesis
    proof (cases "is_function (sub_callback sub)")
      case False
      with True "3.prems" show ?thesis by simp
    next
      case fn: True
      show ?thesis
      proof (cases "e_callback E (sub_callback sub) ?v (sub_name sub) options")
        case (Some e)
        with True fn "3.prems" show ?thesis by (auto simp: Let_def)
      next
        case None
        with True fn "3.prems" have "triggerLoop E ?st' name keys options (Suc idx) rest = (r, st')"
          by (simp add: Let_def)
        from "3.IH"(1) [OF True fn refl refl None this] show ?thesis by simp
      qed
    qed
  qed
qed

lemma trigger_frame:
  "trigger E st name md opts = (r, st') \<Longrightarrow>
   st_data st' = st_data st \<and> st_subscriptions st' = st_subscriptions st \<and>
   st_options st' = st_options st \<and> st_allocs st' = st_allocs st \<and>
   st_symbols st' = st_symbols st"
  by (auto simp: trigger_def split: sum.splits dest: triggerLoop_frame)

lemma get_in_encodePatch: "name \<noteq> [] \<Longrightarrow> get_in name (encodePatch w name v) = v"
  by (simp add: get_in_def encodePatch_def get_encode)











section \<open>Properties of the dispatch\<close>

lemma indexOf_member: "indexOf xs v 0 \<noteq> -1 \<longleftrightarrow> v \<in> set xs"
proof (cases "v \<in> set xs")
  case True
  then have "indexOf xs v 0 = int (max 0 0 + length (takeWhile (\<lambda>x. x \<noteq> v) (drop (0 - 0) xs)))"
    unfolding indexOf_def by (intro index_from_present) simp
  with True show ?thesis by simp
next
  case False
  then have "indexOf xs v 0 = -1"
    unfolding indexOf_def by (intro index_from_absent) simp
  with False show ?thesis by simp
qed

lemma fires_iff:
  "fires (Some p) keys s \<longleftrightarrow>
     p = [] \<or> s = [] \<or> subseq (split_dot s) (split_dot p) \<or> s \<in> set keys"
  by (simp add: hasSubArray_subseq indexOf_member)

lemma triggerLoop_calls:
  "triggerLoop E st name keys opts idx subs = (None, st') \<Longrightarrow>
   st_calls st' = st_calls st @ callsOf name keys opts (st_data st) idx subs"
proof (induction E st name keys opts idx subs rule: triggerLoop.induct)
  case (1 E st name keys options idx)
  then show ?case by simp
next
  case (2 E st name keys options idx rest)
  then show ?case by simp
next
  case (3 E st name keys options idx sub rest)
  let ?v = "get_in (sub_name sub) (st_data st)"
  let ?st' = "st\<lparr>st_calls := st_calls st @ [(idx, ?v, sub_name sub, options)]\<rparr>"
  show ?case
  proof (cases "fires name keys (sub_name sub)")
    case False
    with "3.prems" have "triggerLoop E st name keys options (Suc idx) rest = (None, st')" by simp
    from "3.IH"(2) [OF False this] False show ?thesis by simp
  next
    case True
    show ?thesis
    proof (cases "is_function (sub_callback sub)")
      case False
      with True "3.prems" show ?thesis by simp
    next
      case fn: True
      show ?thesis
      proof (cases "e_callback E (sub_callback sub) ?v (sub_name sub) options")
        case (Some e)
        with True fn "3.prems" show ?thesis by (simp add: Let_def)
      next
        case None
        with True fn "3.prems" have "triggerLoop E ?st' name keys options (Suc idx) rest = (None, st')"
          by (simp add: Let_def)
        from "3.IH"(1) [OF True fn refl refl None this] True show ?thesis by simp
      qed
    qed
  qed
qed

lemma callsOf_index_ge: "c \<in> set (callsOf name keys opts data idx subs) \<Longrightarrow> idx \<le> fst c"
proof (induction name keys opts data idx subs rule: callsOf.induct)
  case (3 name keys options data idx sub rest)
  then show ?case by (auto split: if_splits)
qed auto

lemma callsOf_filter_lt:
  "i < idx \<Longrightarrow> filter (\<lambda>c. fst c = i) (callsOf name keys opts data idx subs) = []"
  by (auto simp: filter_empty_conv dest: callsOf_index_ge)

lemma callsOf_filter:
  "i < length subs \<Longrightarrow> subs ! i = Some sub \<Longrightarrow>
   filter (\<lambda>c. fst c = idx + i) (callsOf name keys opts data idx subs) =
     (if fires name keys (sub_name sub)
      then [(idx + i, get_in (sub_name sub) data, sub_name sub, opts)] else [])"
proof (induction name keys opts data idx subs arbitrary: i rule: callsOf.induct)
  case (1 name keys options data idx)
  then show ?case by simp
next
  case (2 name keys options data idx rest)
  then obtain j where j: "i = Suc j" by (cases i) auto
  with 2 show ?case by simp
next
  case (3 name keys options data idx s rest)
  show ?case
  proof (cases i)
    case 0
    with 3 show ?thesis by (simp add: callsOf_filter_lt)
  next
    case (Suc j)
    with "3.prems" have "j < length rest" "rest ! j = Some sub" by simp_all
    from "3.IH" [OF this] Suc show ?thesis by simp
  qed
qed

lemma callsOf_filter_hole:
  "i < length subs \<Longrightarrow> subs ! i = None \<Longrightarrow>
   filter (\<lambda>c. fst c = idx + i) (callsOf name keys opts data idx subs) = []"
proof (induction name keys opts data idx subs arbitrary: i rule: callsOf.induct)
  case (1 name keys options data idx)
  then show ?case by simp
next
  case (2 name keys options data idx rest)
  show ?case
  proof (cases i)
    case 0
    then show ?thesis by (simp add: callsOf_filter_lt)
  next
    case (Suc j)
    with "2.prems" have "j < length rest" "rest ! j = None" by simp_all
    from "2.IH" [OF this] Suc show ?thesis by simp
  qed
next
  case (3 name keys options data idx s rest)
  then obtain j where j: "i = Suc j" by (cases i) auto
  with "3.prems" have "j < length rest" "rest ! j = None" by simp_all
  from "3.IH" [OF this] j show ?case by simp
qed

lemma modifiedKeysOf_patch:
  "name \<noteq> [] \<Longrightarrow> modifiedKeysOf (encodePatch w name v) = Inr (patch_keys name v)"
proof -
  obtain s ss where sp: "split_dot name = s # ss"
    using split_dot_not_Nil [of name] by (cases "split_dot name") auto
  have fl: "flattenEntries [(s, encode_segs w d ss v)] pre acc
          = flattenEntries [(s, encode_segs w' d' ss v)] pre acc" for d d' w' pre acc
  proof (induction ss arbitrary: s d d' pre acc)
    case Nil
    then show ?case by simp
  next
    case (Cons t ts)
    from Cons.IH [where s = t and d = "Suc d" and d' = "Suc d'"] show ?case
      by (simp add: isPlainObject_def)
  qed
  show ?thesis
    using fl [where d = 1 and d' = 1 and w' = 0 and pre = "[]" and acc = "[]"] by (simp add: patch_keys_def encodePatch_def sp objectToDotNotation_def)
qed

lemma prepare_frame:
  "st_subscriptions (prepare st name options) = st_subscriptions st \<and>
   st_calls (prepare st name options) = st_calls st"
  by (simp add: prepare_def setOptions_def Let_def)

lemma commit_calls:
  assumes "name \<noteq> []" "commit E st2 w name v options so = (Inr r, st')"
    "\<not> (sameReferenceCheck so \<and> strict_eq (get_in name (st_data st2)) v)"
    "dispatch_enabled options"
  shows "st_calls st' =
    st_calls st2 @ callsOf (Some name) (patch_keys name v) (Some options) (st_data st') 0
                     (st_subscriptions st2)"
proof -
  let ?md = "encodePatch w name v"
  let ?st3 = "st2\<lparr>st_data := deepMerge (st_data st2) ?md\<rparr>"
  from assms have tr: "trigger E ?st3 (Some name) ?md (Some options) = (None, st')"
    by (auto simp: commit_def Let_def get_in_encodePatch dispatch_enabled_def
        split: if_splits prod.splits option.splits)
  then have "triggerLoop E ?st3 (Some name) (patch_keys name v) (Some options) 0
               (st_subscriptions ?st3) = (None, st')"
    by (simp add: trigger_def modifiedKeysOf_patch [OF assms(1)])
  from triggerLoop_calls [OF this] trigger_frame [OF tr] show ?thesis by simp
qed


lemma set_path_commit:
  assumes "pipeline E st name value options = Inr v"
  shows "set_path E st name value options =
     commit E ((prepare st name options)\<lparr>st_allocs := st_allocs (prepare st name options) + 2\<rparr>)
       (Suc (st_allocs (prepare st name options))) name v options
       (getOptions (st_options (prepare st name options)) name)"
proof -
  let ?st1 = "prepare st name options"
  from assms obtain value1 where
    f: "applyFunction E ?st1 name value options = Inr value1" and
    t: "transformValue E (st_allocs ?st1) value1 (get ?st1 name) (getOptions (st_options ?st1) name) = Inr v"
    by (auto simp: pipeline_def Let_def split: sum.splits)
  then show ?thesis by (simp add: set_path_def Let_def get_def)
qed

lemma set_path_calls:
  assumes "name \<noteq> []" "pipeline E st name value options = Inr v"
    "\<not> suppresses (prepare st name options) name v" "dispatch_enabled options"
    "set_path E st name value options = (Inr r, st')"
  shows "st_calls st' =
    st_calls st @ callsOf (Some name) (patch_keys name v) (Some options) (st_data st') 0
                     (st_subscriptions st)"
proof -
  let ?st1 = "prepare st name options"
  let ?st2 = "?st1\<lparr>st_allocs := st_allocs ?st1 + 2\<rparr>"
  from assms(5) set_path_commit [OF assms(2)]
  have c: "commit E ?st2 (Suc (st_allocs ?st1)) name v options
             (getOptions (st_options ?st1) name) = (Inr r, st')" by simp
  have ns: "\<not> (sameReferenceCheck (getOptions (st_options ?st1) name) \<and>
              strict_eq (get_in name (st_data ?st2)) v)"
    using assms(3) by (simp add: suppresses_def get_def)
  from commit_calls [OF assms(1) c ns assms(4)] prepare_frame [of st name options]
  show ?thesis by simp
qed

lemma patch_keys_flatten:
  "patch_keys name v =
     (if hd (split_dot name) = ''constructor'' then []
      else map fst (objectToDotNotation
                      [(hd (split_dot name), encode_segs 0 1 (tl (split_dot name)) v)]))"
proof -
  obtain s ss where sp: "split_dot name = s # ss"
    using split_dot_not_Nil [of name] by (cases "split_dot name") auto
  then show ?thesis by (simp add: patch_keys_def encodePatch_def)
qed

text \<open>
  Claim C2, as the code has it. On a write to a non-empty path \<open>name\<close> that is not suppressed,
  has its dispatch enabled and returns, the subscription at position \<open>i\<close>, registered for the
  path \<open>s\<close>, is called exactly once, with the value now stored at \<open>s\<close>, when \<open>s\<close> is empty, or
  the segments of \<open>s\<close> are an ordered subsequence of the segments of \<open>name\<close>, or \<open>s\<close> is a key of
  the flattened patch; otherwise it is not called. The subsequence need not be a prefix.
\<close>

theorem dispatch_on_write:
  assumes "name \<noteq> []" and "pipeline E st name value options = Inr v"
    and "\<not> suppresses (prepare st name options) name v" and "dispatch_enabled options"
    and "set_path E st name value options = (Inr r, st')"
    and "i < length (st_subscriptions st)" and "st_subscriptions st ! i = Some sub"
  shows "filter (\<lambda>c. fst c = i) (new_calls st st') =
     (if sub_name sub = [] \<or> subseq (split_dot (sub_name sub)) (split_dot name) \<or>
         sub_name sub \<in> set (patch_keys name v)
      then [(i, get st' (sub_name sub), sub_name sub, Some options)] else [])"
proof -
  have "new_calls st st' =
      callsOf (Some name) (patch_keys name v) (Some options) (st_data st') 0 (st_subscriptions st)"
    using set_path_calls [OF assms(1-5)] by (simp add: new_calls_def)
  with callsOf_filter [OF assms(6,7), of 0 "Some name" "patch_keys name v" "Some options" "st_data st'"]
  show ?thesis using assms(1) by (simp add: fires_iff get_def del: fires.simps)
qed

theorem dispatch_on_write_witness:
  "filter (\<lambda>c. fst c = 1)
     (new_calls state_ab (snd (set_path env0 state_ab ''a.b'' (Num 2) noSetopts)))
   = [(1, Undefined, ''b'', Some noSetopts)]"
proof -
  have n: "''a.b'' \<noteq> []" by simp
  have p: "pipeline env0 state_ab ''a.b'' (Num 2) noSetopts = Inr (Num 2)" by code_simp
  have s: "\<not> suppresses (prepare state_ab ''a.b'' noSetopts) ''a.b'' (Num 2)" by code_simp
  have d: "dispatch_enabled noSetopts" by code_simp
  have r: "set_path env0 state_ab ''a.b'' (Num 2) noSetopts =
      (Inr (Single ''a.b'' (Num 2)), snd (set_path env0 state_ab ''a.b'' (Num 2) noSetopts))"
    by code_simp
  have i: "1 < length (st_subscriptions state_ab)" by code_simp
  have sub: "st_subscriptions state_ab ! 1 =
      Some \<lparr>sub_id = 1, sub_name = ''b'', sub_callback = Fun (Given 101)\<rparr>" by code_simp
  have g: "get (snd (set_path env0 state_ab ''a.b'' (Num 2) noSetopts)) ''b'' = Undefined"
    by code_simp
  from dispatch_on_write [OF n p s d r i sub] g show ?thesis by simp
qed

text \<open>The claim as stated fails: \<^verbatim>\<open>"b"\<close> is neither a segment prefix of \<^verbatim>\<open>"a.b"\<close> nor a
  flattened leaf path of the patch \<^verbatim>\<open>{ a: { b: 2 } }\<close>, and its subscriber is called.\<close>

theorem dispatch_prefix_counterexample:
  "new_calls state_ab (snd (set_js env0 state_ab (Path ''a.b'' (Num 2) noSetopts))) =
     [(0, Obj (Made 2 1) [(''b'', Num 2)], ''a'', Some noSetopts),
      (1, Undefined, ''b'', Some noSetopts)] \<and>
   st_subscriptions state_ab ! 1 =
     Some \<lparr>sub_id = 1, sub_name = ''b'', sub_callback = Fun (Given 101)\<rparr> \<and>
   ''b'' \<noteq> [] \<and> \<not> prefix (split_dot ''b'') (split_dot ''a.b'') \<and>
   patch_keys ''a.b'' (Num 2) = [''a.b'']"
  by code_simp


section \<open>Writes that do not raise\<close>

lemma quiet_env0: "quiet env0"
  by (simp add: quiet_def env0_def)
















section \<open>Batch writes\<close>











section \<open>Misuse and exceptions\<close>














section \<open>The frame of a write\<close>













section \<open>Writing the same value twice\<close>

















end
